theory Spec2Isabelle
  imports Main "HOL-Library.Word" "HOL-Library.Sublist" "HOL-Library.AList"
begin

unbundle bit_operations_syntax

text \<open>
  The file server of \<open>file_protocol.py\<close> and \<open>file_server_processpool.py\<close>: the filename
  validator, the four command handlers, the dispatcher \<open>proses_string\<close>, and the session
  loop \<open>handle_client\<close> of one connection. The handlers are functions of the state of the
  storage directory; one session runs at a time.
\<close>

section \<open>Python strings\<close>

text \<open>
  A Python \<open>str\<close> is modelled as a \<open>string\<close>. The characters are read as ASCII: the
  classification of white space and the upper-casing below are those of Python on the code
  points 0 to 127, and a character from 128 on is neither white space nor a letter.
\<close>

definition isspace :: "char \<Rightarrow> bool" where
  \<comment> \<open>\<open>str.isspace\<close> on one ASCII character: TAB, LF, VT, FF, CR, FS, GS, RS, US, space.\<close>
  "isspace c = (of_char c \<in> {9, 10, 11, 12, 13, 28, 29, 30, 31, 32 :: nat})"

definition py_strip :: "string \<Rightarrow> string" where
  \<comment> \<open>\<open>s.strip()\<close>: leading and trailing white space removed.\<close>
  "py_strip s = rev (dropWhile isspace (rev (dropWhile isspace s)))"

definition upper_char :: "char \<Rightarrow> char" where
  "upper_char c =
     (if 97 \<le> (of_char c :: nat) \<and> (of_char c :: nat) \<le> 122
      then char_of ((of_char c :: nat) - 32) else c)"

definition py_upper :: "string \<Rightarrow> string" where
  \<comment> \<open>\<open>s.upper()\<close>\<close>
  "py_upper s = map upper_char s"

fun find_sub :: "'a list \<Rightarrow> 'a list \<Rightarrow> ('a list \<times> 'a list) option" where
  \<comment> \<open>The first occurrence of \<open>d\<close> in a sequence: what is before it and what is after it.\<close>
  "find_sub d [] = (if d = [] then Some ([], []) else None)"
| "find_sub d (x # xs) =
     (if prefix d (x # xs) then Some ([], drop (length d) (x # xs))
      else (case find_sub d xs of
              None \<Rightarrow> None
            | Some (before, after) \<Rightarrow> Some (x # before, after)))"

definition py_in :: "'a list \<Rightarrow> 'a list \<Rightarrow> bool" where
  \<comment> \<open>\<open>d in s\<close> on strings: \<open>d\<close> occurs in \<open>s\<close> as a substring.\<close>
  "py_in d s = (find_sub d s \<noteq> None)"

fun py_split :: "string \<Rightarrow> nat \<Rightarrow> string \<Rightarrow> string list" where
  \<comment> \<open>\<open>s.split(sep, maxsplit)\<close> with a non-empty separator.\<close>
  "py_split sep 0 s = [s]"
| "py_split sep (Suc n) s =
     (case find_sub sep s of
        None \<Rightarrow> [s]
      | Some (before, after) \<Rightarrow> before # py_split sep n after)"

section \<open>The filename validator\<close>

definition backslash :: char where
  "backslash = CHR 0x5C"

definition dquote :: char where
  "dquote = CHR 0x22"

definition dangerous_chars :: "string list" where
  "dangerous_chars =
     [''..'', ''/'', [backslash], '':'', ''*'', ''?'', [dquote], ''<'', ''>'', ''|'']"

fun any_in :: "string list \<Rightarrow> string \<Rightarrow> bool" where
  \<comment> \<open>The loop \<open>for char in dangerous_chars: if char in filename: return False\<close>.\<close>
  "any_in [] filename = False"
| "any_in (char # chars) filename = (if py_in char filename then True else any_in chars filename)"

definition is_valid_filename :: "string \<Rightarrow> bool" where
  "is_valid_filename filename =
     (if filename = [] then False
      else if any_in dangerous_chars filename then False
      else if length filename > 255 then False
      else True)"

section \<open>JSON responses\<close>

text \<open>
  Every response is built by \<open>json.dumps\<close> from a dictionary whose values are strings,
  integers, and (for LIST) a list of dictionaries. \<open>json_dumps\<close> is \<open>json.dumps\<close> with its
  default settings: separators \<open>,\<close> and \<open>:\<close> each followed by a space, keys in insertion
  order, and every character outside the printable ASCII range escaped.
\<close>

datatype json = JStr string | JInt int | JList "json list" | JObj "(string \<times> json) list"

definition hex_digit :: "nat \<Rightarrow> char" where
  "hex_digit n = ''0123456789abcdef'' ! (n mod 16)"

fun str_nat :: "nat \<Rightarrow> string" where
  "str_nat n =
     (if n < 10 then [char_of (48 + n)] else str_nat (n div 10) @ [char_of (48 + n mod 10)])"

definition str_int :: "int \<Rightarrow> string" where
  "str_int i = (if i < 0 then ''-'' @ str_nat (nat (- i)) else str_nat (nat i))"

definition json_escape_char :: "char \<Rightarrow> string" where
  "json_escape_char c =
     (if c = dquote then [backslash, dquote]
      else if c = backslash then [backslash, backslash]
      else if c = CHR 0x0A then [backslash, CHR ''n'']
      else if c = CHR 0x0D then [backslash, CHR ''r'']
      else if c = CHR 0x09 then [backslash, CHR ''t'']
      else if c = CHR 0x0C then [backslash, CHR ''f'']
      else if c = CHR 0x08 then [backslash, CHR ''b'']
      else if (of_char c :: nat) < 32 \<or> 126 < (of_char c :: nat)
        then [backslash, CHR ''u'', CHR ''0'', CHR ''0'',
              hex_digit (of_char c div 16), hex_digit (of_char c mod 16)]
      else [c])"

definition json_string :: "string \<Rightarrow> string" where
  "json_string s = dquote # concat (map json_escape_char s) @ [dquote]"

fun join_with :: "string \<Rightarrow> string list \<Rightarrow> string" where
  \<comment> \<open>\<open>sep.join(items)\<close>\<close>
  "join_with sep [] = []"
| "join_with sep [x] = x"
| "join_with sep (x # y # ys) = x @ sep @ join_with sep (y # ys)"

fun json_dumps :: "json \<Rightarrow> string" where
  "json_dumps (JStr s) = json_string s"
| "json_dumps (JInt i) = str_int i"
| "json_dumps (JList xs) = ''['' @ join_with '', '' (map json_dumps xs) @ '']''"
| "json_dumps (JObj kvs) =
     ''{'' @ join_with '', '' (map (\<lambda>kv. json_string (fst kv) @ '': '' @ json_dumps (snd kv)) kvs)
       @ ''}''"

definition response :: "string \<Rightarrow> string \<Rightarrow> (string \<times> json) list \<Rightarrow> string" where
  \<comment> \<open>\<open>json.dumps({'status': status, 'data': data, ...})\<close>\<close>
  "response status data extra =
     json_dumps (JObj ((''status'', JStr status) # (''data'', JStr data) # extra))"

section \<open>Exceptions\<close>

datatype exn =
    OSError nat string string  \<comment> \<open>errno, its text, the path\<close>
  | ValueError string
  | BinasciiError string

definition repr_char :: "char \<Rightarrow> char \<Rightarrow> string" where
  "repr_char q c =
     (if c = q \<or> c = backslash then [backslash, c]
      else if c = CHR 0x09 then [backslash, CHR ''t'']
      else if c = CHR 0x0A then [backslash, CHR ''n'']
      else if c = CHR 0x0D then [backslash, CHR ''r'']
      else if (of_char c :: nat) < 32 \<or> (of_char c :: nat) = 127
        then [backslash, CHR ''x'', hex_digit (of_char c div 16), hex_digit (of_char c mod 16)]
      else [c])"

definition py_repr :: "string \<Rightarrow> string" where
  \<comment> \<open>\<open>repr(s)\<close>: single quotes, unless the string has a single quote and no double quote.\<close>
  "py_repr s =
     (let q = (if CHR 0x27 \<in> set s \<and> dquote \<notin> set s then dquote else CHR 0x27)
      in q # concat (map (repr_char q) s) @ [q])"

fun str_exn :: "exn \<Rightarrow> string" where
  \<comment> \<open>\<open>str(e)\<close>\<close>
  "str_exn (OSError errno text path) =
     ''[Errno '' @ str_nat errno @ ''] '' @ text @ '': '' @ py_repr path"
| "str_exn (ValueError msg) = msg"
| "str_exn (BinasciiError msg) = msg"

section \<open>The storage directory\<close>

text \<open>
  The part of the file system the handlers work on is the storage directory and its direct
  entries, in the order \<open>os.listdir\<close> enumerates them. An entry is a regular file with its
  bytes, or a directory. Every call into the file system is recorded with the path it was
  given. Paths are POSIX paths, and the errors are those of Linux.
\<close>

type_synonym byte = "8 word"

datatype node = File "byte list" | Dir

datatype syscall = Exists | OpenRead | OpenWrite | Remove | ListDir | IsFile | GetSize

record world =
  entries :: "(string \<times> node) list"
  accesses :: "(syscall \<times> string) list"

datatype target = Root | Entry string | Elsewhere | Malformed

definition dir_prefix :: "string \<Rightarrow> string" where
  "dir_prefix a = (if a = [] \<or> last a = CHR ''/'' then a else a @ ''/'')"

definition os_path_join :: "string \<Rightarrow> string \<Rightarrow> string" where
  \<comment> \<open>\<open>os.path.join(a, b)\<close> of \<open>posixpath\<close>: an absolute \<open>b\<close> replaces \<open>a\<close>.\<close>
  "os_path_join a b = (if prefix ''/'' b then b else dir_prefix a @ b)"

definition entry_name :: "string \<Rightarrow> bool" where
  \<comment> \<open>What can be the name of a directory entry.\<close>
  "entry_name n =
     (n \<noteq> [] \<and> n \<noteq> ''.'' \<and> n \<noteq> ''..'' \<and> CHR ''/'' \<notin> set n \<and> CHR 0x00 \<notin> set n)"

definition resolve :: "string \<Rightarrow> string \<Rightarrow> target" where
  \<comment> \<open>Where a path leads, for the storage directory \<open>root\<close>: to the directory itself, to one of
      its direct entries, or somewhere else. A name with a NUL character is refused by Python
      before any system call.\<close>
  "resolve root path =
     (if path = root then Root
      else if prefix (dir_prefix root) path then
        (let name = drop (length (dir_prefix root)) path
         in if name = [] \<or> name = ''.'' then Root
            else if CHR 0x00 \<in> set name then Malformed
            else if name = ''..'' \<or> CHR ''/'' \<in> set name then Elsewhere
            else Entry name)
      else Elsewhere)"

definition logged :: "syscall \<Rightarrow> string \<Rightarrow> world \<Rightarrow> world" where
  "logged call path w = w\<lparr>accesses := accesses w @ [(call, path)]\<rparr>"

definition EISDIR :: "string \<Rightarrow> exn" where
  "EISDIR path = OSError 21 ''Is a directory'' path"

definition ENOENT :: "string \<Rightarrow> exn" where
  "ENOENT path = OSError 2 ''No such file or directory'' path"

definition os_path_exists :: "string \<Rightarrow> world \<Rightarrow> string \<Rightarrow> bool \<times> world" where
  \<comment> \<open>\<open>os.path.exists\<close> never raises: a path that cannot be looked up does not exist.\<close>
  "os_path_exists root w path =
     ((case resolve root path of
         Root \<Rightarrow> True
       | Entry n \<Rightarrow> map_of (entries w) n \<noteq> None
       | Elsewhere \<Rightarrow> False
       | Malformed \<Rightarrow> False),
      logged Exists path w)"

definition write_file :: "string \<Rightarrow> world \<Rightarrow> string \<Rightarrow> byte list \<Rightarrow> (exn + unit) \<times> world" where
  \<comment> \<open>\<open>with open(path, 'wb') as f: f.write(content)\<close>\<close>
  "write_file root w path content =
     (let w' = logged OpenWrite path w in
      case resolve root path of
        Malformed \<Rightarrow> (Inl (ValueError ''embedded null byte''), w')
      | Elsewhere \<Rightarrow> (Inl (ENOENT path), w')
      | Root \<Rightarrow> (Inl (EISDIR path), w')
      | Entry n \<Rightarrow>
          (case map_of (entries w) n of
             Some Dir \<Rightarrow> (Inl (EISDIR path), w')
           | _ \<Rightarrow> (Inr (), w'\<lparr>entries := AList.update n (File content) (entries w)\<rparr>)))"

definition read_file :: "string \<Rightarrow> world \<Rightarrow> string \<Rightarrow> (exn + byte list) \<times> world" where
  \<comment> \<open>\<open>with open(path, 'rb') as f: f.read()\<close>\<close>
  "read_file root w path =
     (let w' = logged OpenRead path w in
      case resolve root path of
        Malformed \<Rightarrow> (Inl (ValueError ''embedded null byte''), w')
      | Elsewhere \<Rightarrow> (Inl (ENOENT path), w')
      | Root \<Rightarrow> (Inl (EISDIR path), w')
      | Entry n \<Rightarrow>
          (case map_of (entries w) n of
             None \<Rightarrow> (Inl (ENOENT path), w')
           | Some Dir \<Rightarrow> (Inl (EISDIR path), w')
           | Some (File content) \<Rightarrow> (Inr content, w')))"

definition os_remove :: "string \<Rightarrow> world \<Rightarrow> string \<Rightarrow> (exn + unit) \<times> world" where
  "os_remove root w path =
     (let w' = logged Remove path w in
      case resolve root path of
        Malformed \<Rightarrow> (Inl (ValueError ''embedded null byte''), w')
      | Elsewhere \<Rightarrow> (Inl (ENOENT path), w')
      | Root \<Rightarrow> (Inl (EISDIR path), w')
      | Entry n \<Rightarrow>
          (case map_of (entries w) n of
             None \<Rightarrow> (Inl (ENOENT path), w')
           | Some Dir \<Rightarrow> (Inl (EISDIR path), w')
           | Some (File content) \<Rightarrow> (Inr (), w'\<lparr>entries := AList.delete n (entries w)\<rparr>)))"

definition os_listdir :: "string \<Rightarrow> world \<Rightarrow> string \<Rightarrow> (exn + string list) \<times> world" where
  \<comment> \<open>The names of the entries, each once. The content of a subdirectory is not tracked.\<close>
  "os_listdir root w path =
     (let w' = logged ListDir path w in
      case resolve root path of
        Malformed \<Rightarrow> (Inl (ValueError ''embedded null byte''), w')
      | Elsewhere \<Rightarrow> (Inl (ENOENT path), w')
      | Root \<Rightarrow> (Inr (filter entry_name (map fst (AList.clearjunk (entries w)))), w')
      | Entry n \<Rightarrow>
          (case map_of (entries w) n of
             None \<Rightarrow> (Inl (ENOENT path), w')
           | Some Dir \<Rightarrow> (Inr [], w')
           | Some (File content) \<Rightarrow> (Inl (OSError 20 ''Not a directory'' path), w')))"

definition os_path_isfile :: "string \<Rightarrow> world \<Rightarrow> string \<Rightarrow> bool \<times> world" where
  "os_path_isfile root w path =
     ((case resolve root path of
         Entry n \<Rightarrow> (case map_of (entries w) n of Some (File content) \<Rightarrow> True | _ \<Rightarrow> False)
       | _ \<Rightarrow> False),
      logged IsFile path w)"

definition os_path_getsize :: "string \<Rightarrow> world \<Rightarrow> string \<Rightarrow> (exn + nat) \<times> world" where
  \<comment> \<open>The size of a directory depends on the file system; 4096 stands for it.\<close>
  "os_path_getsize root w path =
     (let w' = logged GetSize path w in
      case resolve root path of
        Malformed \<Rightarrow> (Inl (ValueError ''embedded null byte''), w')
      | Elsewhere \<Rightarrow> (Inl (ENOENT path), w')
      | Root \<Rightarrow> (Inr 4096, w')
      | Entry n \<Rightarrow>
          (case map_of (entries w) n of
             None \<Rightarrow> (Inl (ENOENT path), w')
           | Some Dir \<Rightarrow> (Inr 4096, w')
           | Some (File content) \<Rightarrow> (Inr (length content), w')))"

section \<open>Base64\<close>

text \<open>
  \<open>base64.b64encode\<close> and \<open>base64.b64decode\<close> of the Python standard library.
  The encoder is the one of RFC 4648. The decoder is the lenient one of CPython
  (\<open>validate=False\<close>): a text with a character from 128 on is refused, a character outside
  the alphabet is skipped, the decoding stops at a complete padding, and data that ends
  inside a group of four is an error.
\<close>

definition b64_alphabet :: string where
  "b64_alphabet = ''ABCDEFGHIJKLMNOPQRSTUVWXYZabcdefghijklmnopqrstuvwxyz0123456789+/''"

definition b2a :: "byte \<Rightarrow> char" where
  "b2a v = b64_alphabet ! unat (v AND 63)"

fun index_of :: "'a \<Rightarrow> 'a list \<Rightarrow> nat option" where
  "index_of c [] = None"
| "index_of c (x # xs) =
     (if c = x then Some 0 else (case index_of c xs of None \<Rightarrow> None | Some i \<Rightarrow> Some (Suc i)))"

definition a2b :: "char \<Rightarrow> byte" where
  \<comment> \<open>The decoding table: the value of a character of the alphabet, and 255 for any other.\<close>
  "a2b c = (case index_of c b64_alphabet of None \<Rightarrow> 255 | Some i \<Rightarrow> of_nat i)"

fun b64encode :: "byte list \<Rightarrow> string" where
  "b64encode [] = []"
| "b64encode [a] =
     [b2a (drop_bit 2 a), b2a (push_bit 4 (a AND 3)), CHR ''='', CHR ''='']"
| "b64encode [a, b] =
     [b2a (drop_bit 2 a), b2a (push_bit 4 (a AND 3) OR drop_bit 4 b),
      b2a (push_bit 2 (b AND 15)), CHR ''='']"
| "b64encode (a # b # c # rest) =
     [b2a (drop_bit 2 a), b2a (push_bit 4 (a AND 3) OR drop_bit 4 b),
      b2a (push_bit 2 (b AND 15) OR drop_bit 6 c), b2a (c AND 63)] @ b64encode rest"

fun a2b_base64 :: "nat \<Rightarrow> byte \<Rightarrow> nat \<Rightarrow> byte list \<Rightarrow> string \<Rightarrow> exn + byte list" where
  \<comment> \<open>The loop of \<open>binascii.a2b_base64\<close>, with its state: the position in the group of
      four, the bits left over, the padding characters seen, the bytes decoded so far.\<close>
  "a2b_base64 quad_pos leftchar pads out [] =
     (if quad_pos = 0 then Inr out
      else if quad_pos = 1 then
        Inl (BinasciiError (''Invalid base64-encoded string: number of data characters (''
               @ str_nat (length out div 3 * 4 + 1)
               @ '') cannot be 1 more than a multiple of 4''))
      else Inl (BinasciiError ''Incorrect padding''))"
| "a2b_base64 quad_pos leftchar pads out (this_ch # rest) =
     (if this_ch = CHR ''='' then
        (if quad_pos \<ge> 2 then
           (if quad_pos + (pads + 1) \<ge> 4 then Inr out
            else a2b_base64 quad_pos leftchar (pads + 1) out rest)
         else a2b_base64 quad_pos leftchar pads out rest)
      else if a2b this_ch \<ge> 64 then a2b_base64 quad_pos leftchar pads out rest
      else if quad_pos = 0 then a2b_base64 1 (a2b this_ch) 0 out rest
      else if quad_pos = 1 then
        a2b_base64 2 (a2b this_ch AND 0x0f) 0
          (out @ [push_bit 2 leftchar OR drop_bit 4 (a2b this_ch)]) rest
      else if quad_pos = 2 then
        a2b_base64 3 (a2b this_ch AND 0x03) 0
          (out @ [push_bit 4 leftchar OR drop_bit 2 (a2b this_ch)]) rest
      else a2b_base64 0 0 0 (out @ [push_bit 6 leftchar OR a2b this_ch]) rest)"

definition b64decode :: "string \<Rightarrow> exn + byte list" where
  "b64decode s =
     (if list_ex (\<lambda>c. 128 \<le> (of_char c :: nat)) s
      then Inl (ValueError ''string argument should contain only ASCII characters'')
      else a2b_base64 0 0 0 [] s)"

section \<open>The command handlers\<close>

text \<open>
  A handler takes the state of the storage directory and returns the response with the new
  state. The calls to \<open>logging\<close> have no effect on either and are left out. What a handler
  catches with \<open>except Exception\<close> is the \<open>Inl\<close> of the operation that raised.
\<close>

record FileProtocol =
  storage_path :: string

definition handle_upload :: "FileProtocol \<Rightarrow> world \<Rightarrow> string list \<Rightarrow> string \<times> world" where
  "handle_upload self w parts =
     (if length parts < 3 then
        (response ''ERROR'' ''UPLOAD command requires filename and content'' [], w)
      else
        let filename = parts ! 1; base64_content = parts ! 2 in
        if \<not> is_valid_filename filename then (response ''ERROR'' ''Invalid filename'' [], w)
        else
          (case b64decode base64_content of
             Inl e \<Rightarrow> (response ''ERROR'' ''Invalid base64 content'' [], w)
           | Inr file_content \<Rightarrow>
               let file_path = os_path_join (storage_path self) filename in
               (case write_file (storage_path self) w file_path file_content of
                  (Inl e, w') \<Rightarrow> (response ''ERROR'' (''Upload failed: '' @ str_exn e) [], w')
                | (Inr u, w') \<Rightarrow>
                    let file_size = length file_content in
                    (response ''OK'' (''File '' @ filename @ '' uploaded successfully'')
                       [(''file_size'', JInt (int file_size))], w'))))"

definition handle_get :: "FileProtocol \<Rightarrow> world \<Rightarrow> string list \<Rightarrow> string \<times> world" where
  "handle_get self w parts =
     (if length parts < 2 then (response ''ERROR'' ''GET command requires filename'' [], w)
      else
        let filename = parts ! 1 in
        if \<not> is_valid_filename filename then (response ''ERROR'' ''Invalid filename'' [], w)
        else
          let file_path = os_path_join (storage_path self) filename in
          (case os_path_exists (storage_path self) w file_path of
             (False, w1) \<Rightarrow> (response ''ERROR'' (''File not found: '' @ filename) [], w1)
           | (True, w1) \<Rightarrow>
               (case read_file (storage_path self) w1 file_path of
                  (Inl e, w2) \<Rightarrow> (response ''ERROR'' (''Get failed: '' @ str_exn e) [], w2)
                | (Inr file_content, w2) \<Rightarrow>
                    let base64_content = b64encode file_content;
                        file_size = length file_content in
                    (response ''OK'' (''File '' @ filename @ '' retrieved successfully'')
                       [(''data_file'', JStr base64_content),
                        (''file_size'', JInt (int file_size))], w2))))"

fun list_files :: "string \<Rightarrow> world \<Rightarrow> string list \<Rightarrow> json list \<Rightarrow> (exn + json list) \<times> world" where
  \<comment> \<open>The loop \<open>for filename in os.listdir(self.storage_path)\<close> of \<open>_handle_list\<close>.\<close>
  "list_files root w [] files = (Inr files, w)"
| "list_files root w (filename # names) files =
     (let file_path = os_path_join root filename in
      case os_path_isfile root w file_path of
        (False, w1) \<Rightarrow> list_files root w1 names files
      | (True, w1) \<Rightarrow>
          (case os_path_getsize root w1 file_path of
             (Inl e, w2) \<Rightarrow> (Inl e, w2)
           | (Inr file_size, w2) \<Rightarrow>
               list_files root w2 names
                 (files @ [JObj [(''filename'', JStr filename), (''size'', JInt (int file_size))]])))"

definition handle_list :: "FileProtocol \<Rightarrow> world \<Rightarrow> string \<times> world" where
  "handle_list self w =
     (case os_listdir (storage_path self) w (storage_path self) of
        (Inl e, w1) \<Rightarrow> (response ''ERROR'' (''List failed: '' @ str_exn e) [], w1)
      | (Inr names, w1) \<Rightarrow>
          (case list_files (storage_path self) w1 names [] of
             (Inl e, w2) \<Rightarrow> (response ''ERROR'' (''List failed: '' @ str_exn e) [], w2)
           | (Inr files, w2) \<Rightarrow>
               (response ''OK'' ''File list retrieved successfully''
                  [(''files'', JList files), (''count'', JInt (int (length files)))], w2)))"

definition handle_delete :: "FileProtocol \<Rightarrow> world \<Rightarrow> string list \<Rightarrow> string \<times> world" where
  "handle_delete self w parts =
     (if length parts < 2 then (response ''ERROR'' ''DELETE command requires filename'' [], w)
      else
        let filename = parts ! 1 in
        if \<not> is_valid_filename filename then (response ''ERROR'' ''Invalid filename'' [], w)
        else
          let file_path = os_path_join (storage_path self) filename in
          (case os_path_exists (storage_path self) w file_path of
             (False, w1) \<Rightarrow> (response ''ERROR'' (''File not found: '' @ filename) [], w1)
           | (True, w1) \<Rightarrow>
               (case os_remove (storage_path self) w1 file_path of
                  (Inl e, w2) \<Rightarrow> (response ''ERROR'' (''Delete failed: '' @ str_exn e) [], w2)
                | (Inr u, w2) \<Rightarrow>
                    (response ''OK'' (''File '' @ filename @ '' deleted successfully'') [], w2))))"

section \<open>The dispatcher\<close>

text \<open>
  Inside the \<open>try\<close> of \<open>proses_string\<close> nothing raises: \<open>strip\<close>, \<open>split\<close> and \<open>upper\<close> are
  total on strings, \<open>parts[0]\<close> is read after the emptiness test, and each handler catches
  what its own body raises. The \<open>except\<close> branch with \<open>Server error\<close> is therefore never
  entered and has no counterpart here.
\<close>

definition proses_string :: "FileProtocol \<Rightarrow> world \<Rightarrow> string \<Rightarrow> string \<times> world" where
  "proses_string self w command_string =
     (let parts = py_split '' '' 2 (py_strip command_string) in
      case parts of
        [] \<Rightarrow> (response ''ERROR'' ''Empty command'' [], w)
      | verb # args \<Rightarrow>
          let command = py_upper verb in
          if command = ''UPLOAD'' then handle_upload self w parts
          else if command = ''GET'' then handle_get self w parts
          else if command = ''LIST'' then handle_list self w
          else if command = ''DELETE'' then handle_delete self w parts
          else (response ''ERROR'' (''Unknown command: '' @ command) [], w))"

section \<open>The session loop\<close>

text \<open>
  \<open>handle_client\<close> owns one connection. The connection is given by what its successive
  \<open>recv\<close> calls return (a chunk of text, already decoded, or a failure: a timeout, a reset,
  bytes that do not decode; an empty chunk is the end of the stream) and by the number of
  \<open>sendall\<close> calls the peer accepts before the connection breaks. The result is the
  sequence of chunks received and frames sent, in the order they happened. An exception
  anywhere in the loop ends the session.
\<close>

definition delimiter :: string where
  "delimiter = [CHR 0x0D, CHR 0x0A, CHR 0x0D, CHR 0x0A]"

datatype recv = Data string | RecvError

datatype io = Received string | Sent string

lemma find_sub_SomeD:
  "find_sub d s = Some (a, b) \<Longrightarrow> s = a @ d @ b"
proof (induction s arbitrary: a b)
  case Nil
  then show ?case by (simp split: if_splits)
next
  case (Cons x xs)
  show ?case
  proof (cases "prefix d (x # xs)")
    case True
    with Cons.prems have "a = []" and "b = drop (length d) (x # xs)" by auto
    moreover from True obtain r where "x # xs = d @ r" by (auto simp: prefix_def)
    ultimately show ?thesis by simp
  next
    case False
    with Cons.prems obtain a' where "find_sub d xs = Some (a', b)" and "a = x # a'"
      by (auto split: option.splits)
    with Cons.IH show ?thesis by simp
  qed
qed

function process_buffer ::
  "FileProtocol \<Rightarrow> world \<Rightarrow> nat \<Rightarrow> string \<Rightarrow> io list \<times> world \<times> nat \<times> string option" where
  \<comment> \<open>The inner loop \<open>while "\r\n\r\n" in buffer\<close>. The last component is the buffer that is
      left, or \<open>None\<close> when \<open>sendall\<close> raised.\<close>
  "process_buffer fp w credit buffer =
     (case find_sub delimiter buffer of
        None \<Rightarrow> ([], w, credit, Some buffer)
      | Some (command, rest) \<Rightarrow>
          (case proses_string fp w command of
             (hasil, w') \<Rightarrow>
               (case credit of
                  0 \<Rightarrow> ([], w', 0, None)
                | Suc credit' \<Rightarrow>
                    (case process_buffer fp w' credit' rest of
                       (out, w'', credit'', left) \<Rightarrow>
                         (Sent (hasil @ delimiter) # out, w'', credit'', left)))))"
  by pat_completeness auto
termination
proof (relation "measure (\<lambda>(fp, w, credit, buffer). length buffer)")
  show "wf (measure (\<lambda>(fp, w, credit, buffer). length buffer))"
    by simp
next
  fix fp :: FileProtocol and w w' :: world and credit credit' :: nat
    and buffer command rest :: string and x :: "string \<times> string"
  assume "find_sub delimiter buffer = Some x" and "(command, rest) = x"
  then have "buffer = command @ delimiter @ rest"
    by (simp add: find_sub_SomeD)
  then have "length rest < length buffer"
    by (simp add: delimiter_def)
  then show "((fp, w', credit', rest), (fp, w, credit, buffer))
      \<in> measure (\<lambda>(fp, w, credit, buffer). length buffer)"
    by simp
qed

declare process_buffer.simps [simp del]

fun session :: "FileProtocol \<Rightarrow> world \<Rightarrow> nat \<Rightarrow> string \<Rightarrow> recv list \<Rightarrow> io list \<times> world" where
  \<comment> \<open>The outer loop \<open>while True\<close>, from the buffer it has reached. It ends when \<open>recv\<close>
      returns nothing more, raises, or returns the empty chunk, and when a write has failed.\<close>
  "session fp w credit buffer [] = ([], w)"
| "session fp w credit buffer (RecvError # later) = ([], w)"
| "session fp w credit buffer (Data data # later) =
     (if data = [] then ([], w)
      else
        (case process_buffer fp w credit (buffer @ data) of
           (out, w', credit', None) \<Rightarrow> (Received data # out, w')
         | (out, w', credit', Some buffer') \<Rightarrow>
             (case session fp w' credit' buffer' later of
                (out', w'') \<Rightarrow> (Received data # out @ out', w''))))"

definition handle_client :: "FileProtocol \<Rightarrow> world \<Rightarrow> nat \<Rightarrow> recv list \<Rightarrow> io list \<times> world" where
  "handle_client fp w credit connection = session fp w credit [] connection"

section \<open>Notions used in the statements\<close>

text \<open>
  A recorded file system call stays within the storage directory when its path is the
  storage directory itself or the storage directory followed by one name that has no \<open>/\<close>
  and is not \<open>..\<close>, and when, for a call that tests, opens or removes a file, the path is
  the storage path joined with a filename that the validator accepts.
\<close>

definition within :: "string \<Rightarrow> syscall \<times> string \<Rightarrow> bool" where
  "within root a =
     ((snd a = root
        \<or> (\<exists>name. snd a = dir_prefix root @ name \<and> CHR ''/'' \<notin> set name \<and> name \<noteq> ''..''))
      \<and> (fst a \<in> {Exists, OpenRead, OpenWrite, Remove} \<longrightarrow>
            (\<exists>f. is_valid_filename f \<and> snd a = os_path_join root f)))"

text \<open>
  The commands of a buffer, run one after the other, each in the state of the storage that
  the one before it has left: the responses in the order of the commands, and the last
  state.
\<close>

fun run_commands :: "FileProtocol \<Rightarrow> world \<Rightarrow> string list \<Rightarrow> string list \<times> world" where
  "run_commands fp w [] = ([], w)"
| "run_commands fp w (c # cs) =
     (case proses_string fp w c of
        (r, w') \<Rightarrow> (case run_commands fp w' cs of (rs, w'') \<Rightarrow> (r # rs, w'')))"

text \<open>
  A command frame is a text that the session loop cuts out of the buffer as it stands: the
  delimiter does not occur in it, nor across its end when the delimiter follows it.
\<close>

definition command_frame :: "string \<Rightarrow> bool" where
  "command_frame f = (\<not> py_in delimiter (f @ butlast delimiter))"


section \<open>Properties of the string operations\<close>

lemma find_sub_None_iff:
  "find_sub d s = None \<longleftrightarrow> \<not> sublist d s"
proof (induction s)
  case Nil
  then show ?case by simp
next
  case (Cons x xs)
  then show ?case
    by (auto simp: sublist_Cons_right split: option.splits)
qed

lemma py_in_iff_sublist: "py_in d s \<longleftrightarrow> sublist d s"
  by (simp add: py_in_def find_sub_None_iff)

lemma py_in_single: "py_in [c] s \<longleftrightarrow> c \<in> set s"
proof -
  have "sublist [c] s \<longleftrightarrow> c \<in> set s"
    by (auto simp: sublist_def in_set_conv_decomp)
  then show ?thesis by (simp add: py_in_iff_sublist)
qed

lemma py_split_nonempty: "py_split sep n s \<noteq> []"
  by (cases n) (auto split: option.splits)

lemma any_in_iff: "any_in ds f \<longleftrightarrow> (\<exists>d \<in> set ds. sublist d f)"
  by (induction ds) (auto simp: py_in_iff_sublist)

lemma sublist_single: "sublist [c] s \<longleftrightarrow> c \<in> set s"
  by (auto simp: sublist_def in_set_conv_decomp)

lemma is_valid_filename_iff:
  "is_valid_filename f \<longleftrightarrow>
     f \<noteq> [] \<and> length f \<le> 255 \<and> \<not> sublist ''..'' f \<and> CHR ''/'' \<notin> set f \<and> backslash \<notin> set f
     \<and> CHR '':'' \<notin> set f \<and> CHR ''*'' \<notin> set f \<and> CHR ''?'' \<notin> set f \<and> dquote \<notin> set f
     \<and> CHR ''<'' \<notin> set f \<and> CHR ''>'' \<notin> set f \<and> CHR ''|'' \<notin> set f"
  by (auto simp: is_valid_filename_def any_in_iff dangerous_chars_def sublist_single)

lemma ex_sublist: "(\<exists>d a b. d \<in> S \<and> name = a @ d @ b) \<longleftrightarrow> (\<exists>d \<in> S. sublist d name)"
  unfolding sublist_def by blast

lemma set_dangerous_chars:
  "set dangerous_chars =
     {''..'', ''/'', [backslash], '':'', ''*'', ''?'', [dquote], ''<'', ''>'', ''|''}"
  by (simp add: dangerous_chars_def)







section \<open>Properties of the responses and of the dispatcher\<close>






lemma proses_string_parts:
  assumes "py_split '' '' 2 (py_strip cmd) = verb # args"
  shows "proses_string self w cmd =
     (if py_upper verb = ''UPLOAD'' then handle_upload self w (verb # args)
      else if py_upper verb = ''GET'' then handle_get self w (verb # args)
      else if py_upper verb = ''LIST'' then handle_list self w
      else if py_upper verb = ''DELETE'' then handle_delete self w (verb # args)
      else (response ''ERROR'' (''Unknown command: '' @ py_upper verb) [], w))"
  using assms by (simp add: proses_string_def Let_def)














section \<open>Properties of the storage operations and of the handlers\<close>

lemma entries_logged [simp]: "entries (logged call path w) = entries w"
  by (simp add: logged_def)




lemma resolve_root [simp]: "resolve root root = Root"
  by (simp add: resolve_def)









section \<open>Properties of the record of file system calls\<close>

lemma valid_join:
  assumes "is_valid_filename f"
  shows "os_path_join root f = dir_prefix root @ f" and "CHR ''/'' \<notin> set f" and "f \<noteq> ''..''"
proof -
  from assms show s: "CHR ''/'' \<notin> set f" by (simp add: is_valid_filename_iff)
  then have "\<not> prefix ''/'' f" by (cases f) auto
  then show "os_path_join root f = dir_prefix root @ f" by (simp add: os_path_join_def)
  from assms have "\<not> sublist ''..'' f" by (simp add: is_valid_filename_iff)
  then show "f \<noteq> ''..''" by auto
qed

lemma within_valid:
  assumes "is_valid_filename f"
  shows "within root (call, os_path_join root f)"
  unfolding within_def using assms valid_join [OF assms] by auto

lemma within_entry:
  assumes "entry_name n" and "call \<in> {IsFile, GetSize}"
  shows "within root (call, os_path_join root n)"
proof -
  from assms(1) have s: "CHR ''/'' \<notin> set n" and d: "n \<noteq> ''..''" by (auto simp: entry_name_def)
  from s have "\<not> prefix ''/'' n" by (cases n) auto
  then have "os_path_join root n = dir_prefix root @ n" by (simp add: os_path_join_def)
  with s d assms(2) show ?thesis unfolding within_def by auto
qed

lemma within_listdir: "within root (ListDir, root)"
  by (simp add: within_def)

lemma acc_logged [simp]: "accesses (logged call path w) = accesses w @ [(call, path)]"
  by (simp add: logged_def)

lemma acc_exists [simp]:
  "accesses (snd (os_path_exists root w path)) = accesses w @ [(Exists, path)]"
  by (simp add: os_path_exists_def)

lemma acc_isfile [simp]:
  "accesses (snd (os_path_isfile root w path)) = accesses w @ [(IsFile, path)]"
  by (simp add: os_path_isfile_def)

lemma acc_write [simp]:
  "accesses (snd (write_file root w path c)) = accesses w @ [(OpenWrite, path)]"
  by (simp add: write_file_def Let_def split: target.splits option.splits node.splits)

lemma acc_read [simp]:
  "accesses (snd (read_file root w path)) = accesses w @ [(OpenRead, path)]"
  by (simp add: read_file_def Let_def split: target.splits option.splits node.splits)

lemma acc_remove [simp]:
  "accesses (snd (os_remove root w path)) = accesses w @ [(Remove, path)]"
  by (simp add: os_remove_def Let_def split: target.splits option.splits node.splits)

lemma acc_getsize [simp]:
  "accesses (snd (os_path_getsize root w path)) = accesses w @ [(GetSize, path)]"
  by (simp add: os_path_getsize_def Let_def split: target.splits option.splits node.splits)

lemma acc_listdir [simp]:
  "accesses (snd (os_listdir root w path)) = accesses w @ [(ListDir, path)]"
  by (simp add: os_listdir_def Let_def split: target.splits option.splits node.splits)

lemma acc_list_files:
  assumes "list_all entry_name names"
  shows "\<exists>new. accesses (snd (list_files root w names files)) = accesses w @ new
           \<and> list_all (within root) new"
  using assms
proof (induction names arbitrary: w files)
  case Nil
  then show ?case by simp
next
  case (Cons filename names)
  let ?p = "os_path_join root filename"
  from Cons.prems have n: "entry_name filename" and ns: "list_all entry_name names" by auto
  obtain b w1 where i: "os_path_isfile root w ?p = (b, w1)" by (cases "os_path_isfile root w ?p")
  then have a1: "accesses w1 = accesses w @ [(IsFile, ?p)]"
    using acc_isfile [of root w ?p] by simp
  have k1: "within root (IsFile, ?p)" using n by (simp add: within_entry)
  show ?case
  proof (cases b)
    case False
    from Cons.IH [OF ns, of w1 files] obtain new
      where "accesses (snd (list_files root w1 names files)) = accesses w1 @ new"
        and "list_all (within root) new" by auto
    with a1 k1 i False show ?thesis by (intro exI [of _ "(IsFile, ?p) # new"]) simp
  next
    case True
    obtain r w2 where g: "os_path_getsize root w1 ?p = (r, w2)"
      by (cases "os_path_getsize root w1 ?p")
    then have a2: "accesses w2 = accesses w @ [(IsFile, ?p), (GetSize, ?p)]"
      using acc_getsize [of root w1 ?p] a1 by simp
    have k2: "within root (GetSize, ?p)" using n by (simp add: within_entry)
    show ?thesis
    proof (cases r)
      case (Inl e)
      with i True g a2 k1 k2 show ?thesis
        by (intro exI [of _ "[(IsFile, ?p), (GetSize, ?p)]"]) simp
    next
      case (Inr size)
      from Cons.IH [OF ns, of w2
          "files @ [JObj [(''filename'', JStr filename), (''size'', JInt (int size))]]"]
      obtain new where "accesses (snd (list_files root w2 names
            (files @ [JObj [(''filename'', JStr filename), (''size'', JInt (int size))]])))
          = accesses w2 @ new" and "list_all (within root) new" by auto
      with i True g Inr a2 k1 k2 show ?thesis
        by (intro exI [of _ "(IsFile, ?p) # (GetSize, ?p) # new"]) simp
    qed
  qed
qed

lemma acc_handle_list:
  "\<exists>new. accesses (snd (handle_list self w)) = accesses w @ new
         \<and> list_all (within (storage_path self)) new"
proof -
  let ?root = "storage_path self"
  obtain r w1 where l: "os_listdir ?root w ?root = (r, w1)" by (cases "os_listdir ?root w ?root")
  then have a1: "accesses w1 = accesses w @ [(ListDir, ?root)]"
    using acc_listdir [of ?root w ?root] by simp
  show ?thesis
  proof (cases r)
    case (Inl e)
    with l a1 show ?thesis
      by (intro exI [of _ "[(ListDir, ?root)]"]) (simp add: handle_list_def within_listdir)
  next
    case (Inr names)
    with l have "names = filter entry_name (map fst (AList.clearjunk (entries w)))"
      by (auto simp: os_listdir_def Let_def)
    then have "list_all entry_name names" by (simp add: list_all_iff)
    from acc_list_files [OF this, of ?root w1 "[]"] obtain new
      where n: "accesses (snd (list_files ?root w1 names [])) = accesses w1 @ new"
        and k: "list_all (within ?root) new" by auto
    obtain r2 w2 where f: "list_files ?root w1 names [] = (r2, w2)"
      by (cases "list_files ?root w1 names []")
    with n a1 have "accesses w2 = accesses w @ (ListDir, ?root) # new" by simp
    moreover have "snd (handle_list self w) = w2"
      using l Inr f by (cases r2) (simp_all add: handle_list_def)
    ultimately show ?thesis using k
      by (intro exI [of _ "(ListDir, ?root) # new"]) (simp add: within_listdir)
  qed
qed

lemma acc_handle_upload:
  "\<exists>new. accesses (snd (handle_upload self w parts)) = accesses w @ new
         \<and> list_all (within (storage_path self)) new"
proof -
  let ?root = "storage_path self"
  let ?p = "os_path_join ?root (parts ! 1)"
  have "snd (handle_upload self w parts) = w
      \<or> (\<exists>c. is_valid_filename (parts ! 1)
            \<and> snd (handle_upload self w parts) = snd (write_file ?root w ?p c))"
    unfolding handle_upload_def Let_def
    by (auto split: sum.splits prod.splits) (metis snd_conv)+
  then consider (none) "snd (handle_upload self w parts) = w"
    | (wrote) c where "is_valid_filename (parts ! 1)"
        and "snd (handle_upload self w parts) = snd (write_file ?root w ?p c)"
    by blast
  then show ?thesis
  proof cases
    case none
    then show ?thesis by (intro exI [of _ "[]"]) simp
  next
    case wrote
    then show ?thesis
      by (intro exI [of _ "[(OpenWrite, ?p)]"]) (simp add: within_valid)
  qed
qed

lemma acc_handle_get:
  "\<exists>new. accesses (snd (handle_get self w parts)) = accesses w @ new
         \<and> list_all (within (storage_path self)) new"
proof -
  let ?root = "storage_path self"
  let ?p = "os_path_join ?root (parts ! 1)"
  let ?w1 = "snd (os_path_exists ?root w ?p)"
  have "snd (handle_get self w parts) = w
      \<or> (is_valid_filename (parts ! 1) \<and> snd (handle_get self w parts) = ?w1)
      \<or> (is_valid_filename (parts ! 1)
            \<and> snd (handle_get self w parts) = snd (read_file ?root ?w1 ?p))"
    unfolding handle_get_def Let_def by (auto split: sum.splits prod.splits bool.splits)
  then consider (none) "snd (handle_get self w parts) = w"
    | (looked) "is_valid_filename (parts ! 1)" and "snd (handle_get self w parts) = ?w1"
    | (opened) "is_valid_filename (parts ! 1)"
        and "snd (handle_get self w parts) = snd (read_file ?root ?w1 ?p)"
    by blast
  then show ?thesis
  proof cases
    case none
    then show ?thesis by (intro exI [of _ "[]"]) simp
  next
    case looked
    then show ?thesis
      by (intro exI [of _ "[(Exists, ?p)]"]) (simp add: within_valid)
  next
    case opened
    then show ?thesis
      by (intro exI [of _ "[(Exists, ?p), (OpenRead, ?p)]"]) (simp add: within_valid)
  qed
qed

lemma acc_handle_delete:
  "\<exists>new. accesses (snd (handle_delete self w parts)) = accesses w @ new
         \<and> list_all (within (storage_path self)) new"
proof -
  let ?root = "storage_path self"
  let ?p = "os_path_join ?root (parts ! 1)"
  let ?w1 = "snd (os_path_exists ?root w ?p)"
  have "snd (handle_delete self w parts) = w
      \<or> (is_valid_filename (parts ! 1) \<and> snd (handle_delete self w parts) = ?w1)
      \<or> (is_valid_filename (parts ! 1)
            \<and> snd (handle_delete self w parts) = snd (os_remove ?root ?w1 ?p))"
    unfolding handle_delete_def Let_def by (auto split: sum.splits prod.splits bool.splits)
  then consider (none) "snd (handle_delete self w parts) = w"
    | (looked) "is_valid_filename (parts ! 1)" and "snd (handle_delete self w parts) = ?w1"
    | (removed) "is_valid_filename (parts ! 1)"
        and "snd (handle_delete self w parts) = snd (os_remove ?root ?w1 ?p)"
    by blast
  then show ?thesis
  proof cases
    case none
    then show ?thesis by (intro exI [of _ "[]"]) simp
  next
    case looked
    then show ?thesis
      by (intro exI [of _ "[(Exists, ?p)]"]) (simp add: within_valid)
  next
    case removed
    then show ?thesis
      by (intro exI [of _ "[(Exists, ?p), (Remove, ?p)]"]) (simp add: within_valid)
  qed
qed

section \<open>Properties of Base64\<close>








lemma length_alphabet: "length b64_alphabet = 64"
  by (simp add: b64_alphabet_def)

lemma unat_and63: "unat (v AND 63 :: byte) < 64"
proof -
  have "unat (v AND 63) \<le> unat (63 :: byte)"
    by (rule word_and_le1 [THEN word_le_nat_alt [THEN iffD1]])
  then show ?thesis by simp
qed


lemma b2a_in_alphabet: "b2a v \<in> set b64_alphabet"
  unfolding b2a_def by (rule nth_mem) (simp add: length_alphabet unat_and63)

lemma alphabet_chars:
  "c \<in> set b64_alphabet \<Longrightarrow> c \<noteq> CHR ''='' \<and> c \<noteq> CHR '' '' \<and> \<not> isspace c \<and> (of_char c :: nat) < 128"
  by (auto simp: b64_alphabet_def isspace_def)











lemma b64encode_chars:
  "c \<in> set (b64encode bs) \<Longrightarrow> c \<in> set b64_alphabet \<or> c = CHR ''=''"
  by (induction bs rule: b64encode.induct) (auto simp: b2a_in_alphabet)

lemma b64encode_char_props:
  assumes "c \<in> set (b64encode bs)"
  shows "c \<noteq> CHR '' ''" and "\<not> isspace c" and "(of_char c :: nat) < 128"
proof -
  from b64encode_chars [OF assms] consider "c \<in> set b64_alphabet" | "c = CHR ''=''" by blast
  then have "c \<noteq> CHR '' '' \<and> \<not> isspace c \<and> (of_char c :: nat) < 128"
  proof cases
    case 1
    from alphabet_chars [OF this] show ?thesis by simp
  next
    case 2
    then show ?thesis by (simp add: isspace_def)
  qed
  then show "c \<noteq> CHR '' ''" and "\<not> isspace c" and "(of_char c :: nat) < 128" by simp_all
qed




lemma b64encode_no_space: "CHR '' '' \<notin> set (b64encode bs)"
  using b64encode_char_props(1) [of "CHR '' ''" bs] by blast


section \<open>Properties of a stored file\<close>









section \<open>Properties of the session loop\<close>

lemma prefix_append_long: "prefix d (xs @ ys) \<Longrightarrow> length d \<le> length xs \<Longrightarrow> prefix d xs"
  by (metis prefix_append prefix_length_le prefix_order.antisym append_eq_append_conv_if
      prefix_def append_eq_conv_conj take_all_iff take_append)

lemma find_sub_first:
  assumes "d \<noteq> []" and "\<not> sublist d (f @ butlast d)"
  shows "find_sub d (f @ d @ s) = Some (f, s)"
  using assms(2)
proof (induction f)
  case Nil
  from assms(1) obtain x xs where d: "d = x # xs" by (cases d) auto
  then have "find_sub d (d @ s) = Some ([], drop (length d) (d @ s))"
    by simp
  then show ?case by simp
next
  case (Cons x f)
  have np: "\<not> prefix d ((x # f) @ d @ s)"
  proof
    assume p: "prefix d ((x # f) @ d @ s)"
    have e: "(x # f) @ d @ s = ((x # f) @ butlast d) @ ([last d] @ s)"
      using assms(1) by (metis append_butlast_last_id append_assoc)
    from p have "prefix d (((x # f) @ butlast d) @ ([last d] @ s))"
      unfolding e .
    moreover have "length d \<le> length ((x # f) @ butlast d)"
      using assms(1) by (cases d) simp_all
    ultimately have "prefix d ((x # f) @ butlast d)" by (rule prefix_append_long)
    then have "sublist d ((x # f) @ butlast d)" by (rule prefix_imp_sublist)
    with Cons.prems show False by simp
  qed
  from Cons.prems have "\<not> sublist d (f @ butlast d)"
    by (auto simp: sublist_Cons_right)
  then have "find_sub d (f @ d @ s) = Some (f, s)" by (rule Cons.IH)
  with np show ?case by simp
qed


lemma delimiter_nonempty: "delimiter \<noteq> []"
  by (simp add: delimiter_def)

lemma process_buffer_rest:
  assumes "\<not> py_in delimiter rest"
  shows "process_buffer fp w credit rest = ([], w, credit, Some rest)"
proof -
  from assms have "find_sub delimiter rest = None"
    unfolding py_in_def by blast
  then show ?thesis by (subst process_buffer.simps) simp
qed

lemma process_buffer_frames:
  assumes "list_all command_frame frames" and "\<not> py_in delimiter rest"
    and "length frames \<le> credit"
  shows "process_buffer fp w credit (concat (map (\<lambda>f. f @ delimiter) frames) @ rest)
     = (map (\<lambda>r. Sent (r @ delimiter)) (fst (run_commands fp w frames)),
        snd (run_commands fp w frames), credit - length frames, Some rest)"
  using assms(1,3)
proof (induction frames arbitrary: w credit)
  case Nil
  then show ?case by (simp add: process_buffer_rest [OF assms(2)])
next
  case (Cons f frames)
  let ?tail = "concat (map (\<lambda>f. f @ delimiter) frames) @ rest"
  from Cons.prems(1) have "command_frame f" and fs: "list_all command_frame frames"
    by simp_all
  then have "\<not> sublist delimiter (f @ butlast delimiter)"
    by (simp add: command_frame_def py_in_iff_sublist)
  with delimiter_nonempty have found: "find_sub delimiter (f @ delimiter @ ?tail) = Some (f, ?tail)"
    by (intro find_sub_first)
  from Cons.prems(2) obtain c where c: "credit = Suc c" and l: "length frames \<le> c"
    by (cases credit) auto
  obtain r w' where p: "proses_string fp w f = (r, w')" by (cases "proses_string fp w f")
  obtain rs w'' where rc: "run_commands fp w' frames = (rs, w'')"
    by (cases "run_commands fp w' frames")
  from Cons.IH [OF fs l, of w'] rc
  have ih: "process_buffer fp w' c ?tail
      = (map (\<lambda>r. Sent (r @ delimiter)) rs, w'', c - length frames, Some rest)" by simp
  have "process_buffer fp w credit (f @ delimiter @ ?tail)
      = (Sent (r @ delimiter) # map (\<lambda>r. Sent (r @ delimiter)) rs, w'', c - length frames,
         Some rest)"
    by (subst process_buffer.simps) (simp add: found p c ih)
  with p rc c show ?case by simp
qed

section \<open>The filename validator is exactly its denylist\<close>

text \<open>
  Claim C9. The validator rejects a name exactly when the name is empty, or longer than 255
  characters, or has one of \<open>..\<close>, \<open>/\<close>, the backslash, \<open>:\<close>, \<open>*\<close>, \<open>?\<close>, the double quote,
  \<open><\<close>, \<open>>\<close>, \<open>|\<close> as a substring. It accepts every other name. It is a function of the name
  alone: it reads no state and cannot fail.
\<close>

theorem validator_exact:
  "(\<not> is_valid_filename name) =
     (name = [] \<or> 255 < length name
      \<or> (\<exists>d a b. d \<in> {''..'', ''/'', [backslash], '':'', ''*'', ''?'', [dquote], ''<'', ''>'', ''|''}
            \<and> name = a @ d @ b))"
proof -
  have "(\<not> is_valid_filename name) =
     (name = [] \<or> 255 < length name \<or> (\<exists>d \<in> set dangerous_chars. sublist d name))"
    unfolding is_valid_filename_def any_in_iff by auto
  then show ?thesis
    unfolding ex_sublist set_dangerous_chars .
qed

theorem validator_exact_witness:
  "(\<not> is_valid_filename ''a..b'') =
     (''a..b'' = [] \<or> 255 < length ''a..b''
      \<or> (\<exists>d a b. d \<in> {''..'', ''/'', [backslash], '':'', ''*'', ''?'', [dquote], ''<'', ''>'', ''|''}
            \<and> ''a..b'' = a @ d @ b))"
  by (rule validator_exact [of "''a..b''"])

section \<open>Every command gets a response\<close>



section \<open>Unknown verbs\<close>



section \<open>The empty command\<close>



section \<open>Splitting a frame into fields\<close>




section \<open>Rejected filenames\<close>




section \<open>GET after DELETE\<close>



section \<open>The handlers stay within the storage directory\<close>

text \<open>
  Claim C3. Whatever the command, every file system call that \<open>proses_string\<close> adds to
  the record stays within the storage directory. A path that is tested for existence,
  opened for reading, opened for writing, or removed is the storage path joined with one
  filename that the validator has accepted. The path of any call, also of the enumeration
  of the storage directory by LIST and of its queries on the names enumerated, is the
  storage directory itself or one name directly under it: no path goes through \<open>..\<close> or
  into a subdirectory.
\<close>

theorem accesses_within_storage:
  "\<exists>new. accesses (snd (proses_string self w cmd)) = accesses w @ new
         \<and> list_all (within (storage_path self)) new"
proof -
  obtain verb args where p: "py_split '' '' 2 (py_strip cmd) = verb # args"
    using py_split_nonempty [of "'' ''" 2 "py_strip cmd"]
    by (cases "py_split '' '' 2 (py_strip cmd)") auto
  have "\<exists>new. accesses w = accesses w @ new \<and> list_all (within (storage_path self)) new"
    by (intro exI [of _ "[]"]) simp
  then show ?thesis
    unfolding proses_string_parts [OF p]
    using acc_handle_upload acc_handle_get acc_handle_delete acc_handle_list
    by simp
qed

theorem accesses_within_storage_witness:
  "accesses (snd (proses_string \<lparr>storage_path = ''files''\<rparr>
                 \<lparr>entries = [(''a'', File [65])], accesses = []\<rparr> ''GET a''))
     = [(Exists, ''files/a''), (OpenRead, ''files/a'')]
   \<and> list_all (within ''files'') [(Exists, ''files/a''), (OpenRead, ''files/a'')]"
proof -
  let ?fp = "\<lparr>storage_path = ''files''\<rparr>"
  let ?w = "\<lparr>entries = [(''a'', File [65])], accesses = []\<rparr>"
  have e: "accesses (snd (proses_string ?fp ?w ''GET a''))
      = [(Exists, ''files/a''), (OpenRead, ''files/a'')]"
    by code_simp
  from accesses_within_storage [of ?fp ?w "''GET a''"] obtain new
    where "accesses (snd (proses_string ?fp ?w ''GET a'')) = accesses ?w @ new"
      and "list_all (within (storage_path ?fp)) new" by blast
  with e show ?thesis by simp
qed

section \<open>Storing a file and fetching it again\<close>




text \<open>
  Each of the other conditions on the filename is needed as well. The validator accepts
  the names below, and for each the UPLOAD or the GET does not do what the claim says:
  \<open>.\<close> is the storage directory itself; a name with a space is cut at the space, and
  the rest of it is decoded with the payload; a name that ends in white space loses it when
  the GET frame is stripped; a directory cannot be opened for writing; a name with a NUL
  character is refused when the file is opened.
\<close>

lemma upload_dot_fails:
  "is_valid_filename ''.''
   \<and> proses_string \<lparr>storage_path = ''files''\<rparr> \<lparr>entries = [], accesses = []\<rparr>
       (''UPLOAD '' @ ''.'' @ '' '' @ b64encode [65])
     = (response ''ERROR''
          (''Upload failed: [Errno 21] Is a directory: '' @ [CHR 0x27] @ ''files/.'' @ [CHR 0x27]) [],
        \<lparr>entries = [], accesses = [(OpenWrite, ''files/.'')]\<rparr>)"
  by code_simp

lemma upload_name_with_space:
  "is_valid_filename ''a b''
   \<and> proses_string \<lparr>storage_path = ''files''\<rparr> \<lparr>entries = [], accesses = []\<rparr>
       (''UPLOAD '' @ ''a b'' @ '' '' @ b64encode [65])
     = (response ''OK'' ''File a uploaded successfully'' [(''file_size'', JInt 2)],
        \<lparr>entries = [(''a'', File [109, 4])], accesses = [(OpenWrite, ''files/a'')]\<rparr>)"
  by code_simp

lemma get_name_ending_in_tab:
  "is_valid_filename [CHR ''a'', CHR 0x09]
   \<and> proses_string \<lparr>storage_path = ''files''\<rparr>
       \<lparr>entries = [([CHR ''a'', CHR 0x09], File [65])], accesses = []\<rparr>
       (''GET '' @ [CHR ''a'', CHR 0x09])
     = (response ''ERROR'' ''File not found: a'' [],
        \<lparr>entries = [([CHR ''a'', CHR 0x09], File [65])], accesses = [(Exists, ''files/a'')]\<rparr>)"
  by code_simp

lemma upload_over_directory:
  "is_valid_filename ''d''
   \<and> fst (proses_string \<lparr>storage_path = ''files''\<rparr> \<lparr>entries = [(''d'', Dir)], accesses = []\<rparr>
       (''UPLOAD '' @ ''d'' @ '' '' @ b64encode [65]))
     = response ''ERROR''
          (''Upload failed: [Errno 21] Is a directory: '' @ [CHR 0x27] @ ''files/d'' @ [CHR 0x27]) []"
  by code_simp

lemma upload_name_with_nul:
  "is_valid_filename [CHR ''a'', CHR 0x00]
   \<and> fst (proses_string \<lparr>storage_path = ''files''\<rparr> \<lparr>entries = [], accesses = []\<rparr>
       (''UPLOAD '' @ [CHR ''a'', CHR 0x00] @ '' '' @ b64encode [65]))
     = response ''ERROR'' ''Upload failed: embedded null byte'' []"
  by code_simp

section \<open>Several frames in one read\<close>

text \<open>
  Claim C5. Let the buffer, after a chunk has been received, hold the command frames
  \<open>frames\<close>, each followed by the delimiter, and then a rest without delimiter, and let
  the peer accept at least as many writes as there are frames. Then the session sends one
  response frame for each command frame, in the order of the frames in the buffer, each
  response computed in the state of the storage that the command before it has left, and
  all of them before it reads from the socket again; the rest stays in the buffer. Two
  frames received in one chunk, an UPLOAD of the file \<open>a\<close> and a LIST, are answered by
  exactly two response frames in that order, and the listing has the file \<open>a\<close>.
\<close>

theorem pipelined_frames:
  assumes "list_all command_frame frames" and "\<not> py_in delimiter rest"
    and "length frames \<le> credit"
    and "data \<noteq> []" and "buffer @ data = concat (map (\<lambda>f. f @ delimiter) frames) @ rest"
    and "run_commands fp w frames = (responses, w')"
    and "session fp w' (credit - length frames) rest later = (out, w'')"
  shows "session fp w credit buffer (Data data # later)
     = (Received data # map (\<lambda>r. Sent (r @ delimiter)) responses @ out, w'')"
proof -
  from process_buffer_frames [OF assms(1,2,3), of fp w] assms(5,6)
  have "process_buffer fp w credit (buffer @ data)
     = (map (\<lambda>r. Sent (r @ delimiter)) responses, w', credit - length frames, Some rest)"
    by simp
  with assms(4,7) show ?thesis by simp
qed

theorem pipelined_frames_witness:
  "handle_client \<lparr>storage_path = ''files''\<rparr> \<lparr>entries = [], accesses = []\<rparr> 2
         [Data (''UPLOAD a QUJD'' @ delimiter @ ''LIST'' @ delimiter)]
     = ([Received (''UPLOAD a QUJD'' @ delimiter @ ''LIST'' @ delimiter),
         Sent (response ''OK'' ''File a uploaded successfully'' [(''file_size'', JInt 3)]
                @ delimiter),
         Sent (response ''OK'' ''File list retrieved successfully''
                 [(''files'', JList [JObj [(''filename'', JStr ''a''), (''size'', JInt 3)]]),
                  (''count'', JInt 1)] @ delimiter)],
        \<lparr>entries = [(''a'', File [65, 66, 67])],
         accesses = [(OpenWrite, ''files/a''), (ListDir, ''files''), (IsFile, ''files/a''),
                     (GetSize, ''files/a'')]\<rparr>)"
proof -
  let ?fp = "\<lparr>storage_path = ''files''\<rparr>"
  let ?w = "\<lparr>entries = [], accesses = []\<rparr>"
  let ?w' = "\<lparr>entries = [(''a'', File [65, 66, 67])],
         accesses = [(OpenWrite, ''files/a''), (ListDir, ''files''), (IsFile, ''files/a''),
                     (GetSize, ''files/a'')]\<rparr>"
  let ?data = "''UPLOAD a QUJD'' @ delimiter @ ''LIST'' @ delimiter"
  have 1: "list_all command_frame [''UPLOAD a QUJD'', ''LIST'']" by code_simp
  have 2: "\<not> py_in delimiter []" by code_simp
  have 3: "length [''UPLOAD a QUJD'', ''LIST''] \<le> (2 :: nat)" by simp
  have 4: "?data \<noteq> []" by simp
  have 5: "[] @ ?data = concat (map (\<lambda>f. f @ delimiter) [''UPLOAD a QUJD'', ''LIST'']) @ []"
    by simp
  have 6: "run_commands ?fp ?w [''UPLOAD a QUJD'', ''LIST'']
     = ([response ''OK'' ''File a uploaded successfully'' [(''file_size'', JInt 3)],
         response ''OK'' ''File list retrieved successfully''
                 [(''files'', JList [JObj [(''filename'', JStr ''a''), (''size'', JInt 3)]]),
                  (''count'', JInt 1)]], ?w')"
    by code_simp
  have 7: "session ?fp ?w' (2 - length [''UPLOAD a QUJD'', ''LIST'']) [] [] = ([], ?w')"
    by simp
  from pipelined_frames [OF 1 2 3 4 5 6 7] show ?thesis
    by (simp add: handle_client_def)
qed

end
